theory Spec2Isabelle
  imports Main
begin

section \<open>JavaScript values used by the version utilities\<close>

text \<open>
  The result of \<^verbatim>\<open>parseInt\<close> is a JavaScript number. The model keeps the one
  non-integer value that \<^verbatim>\<open>parseInt\<close> can return apart, \<open>NaN\<close>, and represents every
  other result by its mathematical integer value. (A double represents integers exactly
  up to \<open>2^53\<close>; longer digit strings are rounded by the runtime, which the model does
  not follow.) Strings are lists of 8-bit characters.
\<close>

datatype jsnum = NaN | Num int

text \<open>
  The relational operators \<^verbatim>\<open><\<close> and \<^verbatim>\<open>>\<close> on numbers: every comparison with
  \<open>NaN\<close> is false.
\<close>

fun js_lt :: "jsnum \<Rightarrow> jsnum \<Rightarrow> bool" where
  "js_lt (Num a) (Num b) = (a < b)"
| "js_lt _ _ = False"

fun js_gt :: "jsnum \<Rightarrow> jsnum \<Rightarrow> bool" where
  "js_gt (Num a) (Num b) = (a > b)"
| "js_gt _ _ = False"

subsection \<open>\<^verbatim>\<open>String.prototype.split('.')\<close>\<close>

text \<open>
  Splitting on the separator always yields at least one segment: the empty string splits
  into the one empty segment.
\<close>

fun split_dot :: "string \<Rightarrow> string list" where
  "split_dot [] = [[]]"
| "split_dot (c # cs) =
     (if c = CHR ''.'' then [] # split_dot cs
      else (case split_dot cs of
              [] \<Rightarrow> [[c]]
            | w # ws \<Rightarrow> (c # w) # ws))"

subsection \<open>\<^verbatim>\<open>parseInt(s, 10)\<close>\<close>

text \<open>
  \<^verbatim>\<open>parseInt\<close> skips leading white space and line terminators, reads an optional sign,
  then the longest prefix of decimal digits; the rest of the string is ignored. With no
  digit at that place the result is \<open>NaN\<close>. The white-space characters below are the ones
  of the language that lie in the 8-bit range: TAB, LF, VT, FF, CR, SP and NBSP.
\<close>

definition isWhiteSpace :: "char \<Rightarrow> bool" where
  "isWhiteSpace c = (of_char c \<in> {9, 10, 11, 12, 13, 32, 160 :: nat})"

definition isDigit :: "char \<Rightarrow> bool" where
  "isDigit c = (48 \<le> (of_char c :: nat) \<and> (of_char c :: nat) \<le> 57)"

definition digitVal :: "char \<Rightarrow> int" where
  "digitVal c = int (of_char c) - 48"

definition digitsVal :: "string \<Rightarrow> int" where
  "digitsVal ds = foldl (\<lambda>acc c. acc * 10 + digitVal c) 0 ds"

definition parseInt10 :: "string \<Rightarrow> jsnum" where
  "parseInt10 s =
     (let s1 = dropWhile isWhiteSpace s;
          sign = (case s1 of c # _ \<Rightarrow> (if c = CHR ''-'' then - 1 else 1) | [] \<Rightarrow> (1::int));
          s2 = (case s1 of c # r \<Rightarrow> (if c = CHR ''-'' \<or> c = CHR ''+'' then r else s1)
                         | [] \<Rightarrow> s1);
          z = takeWhile isDigit s2
      in if z = [] then NaN else Num (sign * digitsVal z))"

section \<open>Version comparison (module \<^verbatim>\<open>version-compare\<close>)\<close>

text \<open>
  \<^verbatim>\<open>const parts = v.split('.').map(num => parseInt(num, 10))\<close>
\<close>

definition versionParts :: "string \<Rightarrow> jsnum list" where
  "versionParts v = map parseInt10 (split_dot v)"

text \<open>
  \<^verbatim>\<open>while (parts.length < maxLength) parts.push(0)\<close>
\<close>

function padZeros :: "nat \<Rightarrow> jsnum list \<Rightarrow> jsnum list" where
  "padZeros maxLength parts =
     (if length parts < maxLength then padZeros maxLength (parts @ [Num 0]) else parts)"
  by pat_completeness auto
termination
  by (relation "measure (\<lambda>(maxLength, parts). maxLength - length parts)") auto

declare padZeros.simps [simp del]

text \<open>
  The \<^verbatim>\<open>for\<close> loop of \<^verbatim>\<open>compareVersions\<close>, from index \<open>i\<close> on. Both arrays have
  been padded to \<open>maxLength\<close>, so every read is in range.
\<close>

function compareLoop :: "jsnum list \<Rightarrow> jsnum list \<Rightarrow> nat \<Rightarrow> nat \<Rightarrow> int" where
  "compareLoop parts1 parts2 maxLength i =
     (if i < maxLength then
        (if js_lt (parts1 ! i) (parts2 ! i) then - 1
         else if js_gt (parts1 ! i) (parts2 ! i) then 1
         else compareLoop parts1 parts2 maxLength (i + 1))
      else 0)"
  by pat_completeness auto
termination
  by (relation "measure (\<lambda>(parts1, parts2, maxLength, i). maxLength - i)") auto

declare compareLoop.simps [simp del]

definition compareVersions :: "string \<Rightarrow> string \<Rightarrow> int" where
  "compareVersions v1 v2 =
     (let parts1 = versionParts v1;
          parts2 = versionParts v2;
          maxLength = max (length parts1) (length parts2)
      in compareLoop (padZeros maxLength parts1) (padZeros maxLength parts2) maxLength 0)"

definition isUpdateAvailable :: "string \<Rightarrow> string \<Rightarrow> bool" where
  "isUpdateAvailable currentVersion latestVersion =
     (compareVersions currentVersion latestVersion < 0)"

section \<open>Version formatting (module \<^verbatim>\<open>version-formatter\<close>)\<close>

text \<open>
  An array read \<^verbatim>\<open>a[i]\<close> yields \<^verbatim>\<open>undefined\<close> past the end; \<^verbatim>\<open>x || 0\<close> replaces the
  falsy values \<^verbatim>\<open>undefined\<close>, \<open>NaN\<close> and \<open>0\<close> by \<open>0\<close>.
\<close>

definition nthOpt :: "'a list \<Rightarrow> nat \<Rightarrow> 'a option" where
  "nthOpt xs i = (if i < length xs then Some (xs ! i) else None)"

fun orZero :: "jsnum option \<Rightarrow> int" where
  "orZero None = 0"
| "orZero (Some NaN) = 0"
| "orZero (Some (Num k)) = k"

text \<open>The \<^verbatim>\<open>for\<close> loop inside the comparator that \<^verbatim>\<open>sortVersions\<close> hands to the sort.\<close>

function sortCompareLoop :: "bool \<Rightarrow> jsnum list \<Rightarrow> jsnum list \<Rightarrow> nat \<Rightarrow> nat \<Rightarrow> int" where
  "sortCompareLoop descending aParts bParts maxLength i =
     (if i < maxLength then
        (let aPart = orZero (nthOpt aParts i);
             bPart = orZero (nthOpt bParts i)
         in if aPart \<noteq> bPart then (if descending then bPart - aPart else aPart - bPart)
            else sortCompareLoop descending aParts bParts maxLength (i + 1))
      else 0)"
  by pat_completeness auto
termination
  by (relation "measure (\<lambda>(descending, aParts, bParts, maxLength, i). maxLength - i)") auto

declare sortCompareLoop.simps [simp del]

definition sortCompare :: "bool \<Rightarrow> string \<Rightarrow> string \<Rightarrow> int" where
  "sortCompare descending a b =
     (let aParts = versionParts a;
          bParts = versionParts b;
          maxLength = max (length aParts) (length bParts)
      in sortCompareLoop descending aParts bParts maxLength 0)"

text \<open>
  \<^verbatim>\<open>Array.prototype.sort\<close> with a comparator is a stable sort: an element goes before
  another when the comparator is negative, and elements that compare equal keep their
  order. Insertion from the right computes that arrangement.
\<close>

fun insertBy :: "('a \<Rightarrow> 'a \<Rightarrow> int) \<Rightarrow> 'a \<Rightarrow> 'a list \<Rightarrow> 'a list" where
  "insertBy cmp x [] = [x]"
| "insertBy cmp x (y # ys) = (if cmp x y \<le> 0 then x # y # ys else y # insertBy cmp x ys)"

definition arraySort :: "('a \<Rightarrow> 'a \<Rightarrow> int) \<Rightarrow> 'a list \<Rightarrow> 'a list" where
  "arraySort cmp xs = foldr (insertBy cmp) xs []"

definition sortVersions :: "string list \<Rightarrow> bool \<Rightarrow> string list" where
  "sortVersions versions descending = arraySort (sortCompare descending) versions"

text \<open>\<^verbatim>\<open>getLatestVersion\<close>: \<^verbatim>\<open>null\<close> for the empty array, else \<^verbatim>\<open>sorted[0]\<close>.\<close>

definition getLatestVersion :: "string list \<Rightarrow> string option" where
  "getLatestVersion versions =
     (if versions = [] then None
      else (case sortVersions versions True of [] \<Rightarrow> None | v # _ \<Rightarrow> Some v))"

section \<open>Store URLs (module \<^verbatim>\<open>stores\<close>)\<close>

datatype platform = Ios | Android | Web

text \<open>Every field of \<^verbatim>\<open>AppStoreConfig\<close> is optional: \<open>None\<close> is \<^verbatim>\<open>undefined\<close>.\<close>

record appStoreConfig =
  iosAppStoreId :: "string option"
  androidPackageName :: "string option"
  iosStoreUrl :: "string option"
  androidStoreUrl :: "string option"

text \<open>
  The tests \<^verbatim>\<open>if (customUrl)\<close> and \<^verbatim>\<open>if (!appStoreId)\<close> are truthiness tests: a string is
  truthy when it is defined and not empty.
\<close>

fun truthy :: "string option \<Rightarrow> bool" where
  "truthy None = False"
| "truthy (Some s) = (s \<noteq> [])"

definition getIosStoreUrl :: "string option \<Rightarrow> string option \<Rightarrow> string option" where
  "getIosStoreUrl appStoreId customUrl =
     (if truthy customUrl then customUrl
      else (case appStoreId of
              None \<Rightarrow> None
            | Some ident \<Rightarrow>
                (if ident = [] then None
                 else Some (''https://apps.apple.com/app/id'' @ ident))))"

definition getAndroidStoreUrl :: "string option \<Rightarrow> string option \<Rightarrow> string option" where
  "getAndroidStoreUrl packageName customUrl =
     (if truthy customUrl then customUrl
      else (case packageName of
              None \<Rightarrow> None
            | Some name \<Rightarrow>
                (if name = [] then None
                 else Some (''https://play.google.com/store/apps/details?id='' @ name))))"

definition getStoreUrl :: "platform \<Rightarrow> appStoreConfig \<Rightarrow> string option" where
  "getStoreUrl p config =
     (case p of
        Ios \<Rightarrow> getIosStoreUrl (iosAppStoreId config) (iosStoreUrl config)
      | Android \<Rightarrow> getAndroidStoreUrl (androidPackageName config) (androidStoreUrl config)
      | Web \<Rightarrow> None)"

section \<open>The provider contracts\<close>

text \<open>
  A provider is an object outside the engine: its operations may read and change state the
  engine does not see, and may throw (an asynchronous operation may reject, which
  \<^verbatim>\<open>await\<close> turns into a throw). An operation is therefore a function of the outside
  world \<open>'w\<close> that returns either the thrown value (\<open>Inl\<close>) or its result (\<open>Inr\<close>),
  together with the world it leaves behind.
\<close>

datatype exn = Exn string

type_synonym ('w, 'a) effect = "'w \<Rightarrow> (exn + 'a) \<times> 'w"

text \<open>
  \<^verbatim>\<open>IVersionDataProvider\<close>: the three required operations and the optional
  \<^verbatim>\<open>isUpdateMandatory\<close> hook (\<open>None\<close> when the provider does not define it). The
  engine hands the hook \<^verbatim>\<open>versionInfo.latestVersion!\<close>, whose value may be \<^verbatim>\<open>null\<close> as
  far as the types tell, so the second argument is an optional string.
\<close>

record 'w dataProvider =
  dp_getCurrentVersion :: "('w, string) effect"
  dp_getLatestVersion :: "platform \<Rightarrow> ('w, string option) effect"
  dp_getAppStoreConfig :: "('w, appStoreConfig) effect"
  dp_isUpdateMandatory :: "(string \<Rightarrow> string option \<Rightarrow> ('w, bool) effect) option"

text \<open>
  \<^verbatim>\<open>IStorageProvider\<close>: the five required operations, and the optional ones the engine
  probes for. A stored time is a number or \<^verbatim>\<open>null\<close>.
\<close>

record 'w storageProvider =
  sp_getLastCheckTime :: "('w, jsnum option) effect"
  sp_setLastCheckTime :: "int \<Rightarrow> ('w, unit) effect"
  sp_getRemindLaterTime :: "('w, jsnum option) effect"
  sp_setRemindLaterTime :: "int \<Rightarrow> ('w, unit) effect"
  sp_clearRemindLaterTime :: "('w, unit) effect"
  sp_incrementDismissCount :: "('w, unit) effect option"
  sp_getLastShownVersion :: "('w, string option) effect option"
  sp_setLastShownVersion :: "(string \<Rightarrow> ('w, unit) effect) option"

text \<open>
  The options after the constructor has merged in the defaults
  (\<^verbatim>\<open>Required<VersionCheckOptions>\<close>).
\<close>

record 'w options =
  minCheckInterval :: int
  remindLaterDuration :: int
  skipWebPlatform :: bool
  opt_getPlatform :: "('w, platform) effect"

text \<open>
  The \<^verbatim>\<open>VersionChecker\<close> object. The clock behind \<^verbatim>\<open>Date.now()\<close> is one more
  collaborator; it cannot throw, and each reading may advance it.
\<close>

record 'w versionChecker =
  dataProvider :: "'w dataProvider"
  storageProvider :: "'w storageProvider"
  options :: "'w options"
  dateNow :: "'w \<Rightarrow> int \<times> 'w"

record versionInfo =
  currentVersion :: string
  latestVersion :: "string option"
  updateAvailable :: bool
  storeUrl :: "string option"
  platform :: platform

datatype skipReason = No_update | Web_platform | Remind_later | Too_soon | Error

record versionCheckResult =
  shouldShowPrompt :: bool
  versionInfo :: versionInfo
  skipReason :: "skipReason option"

section \<open>Running the engine: calls, awaits and try/catch\<close>

text \<open>
  Every call the engine makes on a collaborator is recorded, in order, so that "this
  operation was not invoked" is a statement about the record. The engine's state is the
  outside world together with that record.
\<close>

datatype call =
    GetPlatform
  | GetCurrentVersion
  | GetLatestVersion platform
  | GetAppStoreConfig
  | IsUpdateMandatory string "string option"
  | GetLastCheckTime
  | SetLastCheckTime int
  | GetRemindLaterTime
  | SetRemindLaterTime int
  | ClearRemindLaterTime
  | IncrementDismissCount
  | GetLastShownVersion
  | SetLastShownVersion string
  | DateNow
  | ConsoleError exn

text \<open>The calls that write to the Preference Store.\<close>

fun isWrite :: "call \<Rightarrow> bool" where
  "isWrite (SetLastCheckTime _) = True"
| "isWrite (SetRemindLaterTime _) = True"
| "isWrite ClearRemindLaterTime = True"
| "isWrite IncrementDismissCount = True"
| "isWrite (SetLastShownVersion _) = True"
| "isWrite _ = False"

text \<open>The version-fetch operations of the Data Source.\<close>

fun isVersionFetch :: "call \<Rightarrow> bool" where
  "isVersionFetch GetCurrentVersion = True"
| "isVersionFetch (GetLatestVersion _) = True"
| "isVersionFetch _ = False"

type_synonym ('w, 'a) io = "'w \<times> call list \<Rightarrow> (exn + 'a) \<times> ('w \<times> call list)"

definition ret :: "'a \<Rightarrow> ('w, 'a) io" where
  "ret v = (\<lambda>s. (Inr v, s))"

text \<open>\<^verbatim>\<open>const v = await m; ...\<close>: a throw of \<open>m\<close> ends the sequence.\<close>

definition await :: "('w, 'a) io \<Rightarrow> ('a \<Rightarrow> ('w, 'b) io) \<Rightarrow> ('w, 'b) io" where
  "await m f = (\<lambda>s. case m s of (Inl e, s') \<Rightarrow> (Inl e, s') | (Inr v, s') \<Rightarrow> f v s')"

text \<open>\<^verbatim>\<open>try { m } catch (error) { h error }\<close>\<close>

definition tryCatch :: "('w, 'a) io \<Rightarrow> (exn \<Rightarrow> ('w, 'a) io) \<Rightarrow> ('w, 'a) io" where
  "tryCatch m h = (\<lambda>s. case m s of (Inl e, s') \<Rightarrow> h e s' | (Inr v, s') \<Rightarrow> (Inr v, s'))"

text \<open>Calling an operation of a collaborator: the call is recorded, whatever it does.\<close>

definition invoke :: "call \<Rightarrow> ('w, 'a) effect \<Rightarrow> ('w, 'a) io" where
  "invoke c f = (\<lambda>(w, calls). case f w of (r, w') \<Rightarrow> (r, (w', calls @ [c])))"

definition now :: "'w versionChecker \<Rightarrow> ('w, int) io" where
  "now vc = (\<lambda>(w, calls). case dateNow vc w of (t, w') \<Rightarrow> (Inr t, (w', calls @ [DateNow])))"

definition consoleError :: "exn \<Rightarrow> ('w, unit) io" where
  "consoleError e = (\<lambda>(w, calls). (Inr (), (w, calls @ [ConsoleError e])))"

section \<open>The decision engine (class \<^verbatim>\<open>VersionChecker\<close>)\<close>

text \<open>
  A stored time read back from the Preference Store is used under a truthiness test
  (\<^verbatim>\<open>remindLaterTime && ...\<close>): \<^verbatim>\<open>null\<close>, \<open>0\<close> and \<open>NaN\<close> are falsy.
\<close>

fun truthyTime :: "jsnum option \<Rightarrow> int option" where
  "truthyTime None = None"
| "truthyTime (Some NaN) = None"
| "truthyTime (Some (Num t)) = (if t = 0 then None else Some t)"

definition vc_getPlatform :: "'w versionChecker \<Rightarrow> ('w, platform) io" where
  "vc_getPlatform vc = invoke GetPlatform (opt_getPlatform (options vc))"

definition vc_getVersionInfo :: "'w versionChecker \<Rightarrow> ('w, versionInfo) io" where
  "vc_getVersionInfo vc =
     await (vc_getPlatform vc) (\<lambda>p.
     await (invoke GetCurrentVersion (dp_getCurrentVersion (dataProvider vc))) (\<lambda>current.
     await (invoke (GetLatestVersion p) (dp_getLatestVersion (dataProvider vc) p)) (\<lambda>latest.
     await (invoke GetAppStoreConfig (dp_getAppStoreConfig (dataProvider vc))) (\<lambda>config.
     ret \<lparr> currentVersion = current,
           latestVersion = latest,
           updateAvailable =
             (case latest of
                None \<Rightarrow> False
              | Some l \<Rightarrow> (if l \<noteq> [] then isUpdateAvailable current l else False)),
           storeUrl = getStoreUrl p config,
           platform = p \<rparr>))))"

definition vc_isUpdateAvailable :: "'w versionChecker \<Rightarrow> ('w, bool) io" where
  "vc_isUpdateAvailable vc =
     await (vc_getPlatform vc) (\<lambda>p.
       if p = Web \<and> skipWebPlatform (options vc) then ret False
       else await (vc_getVersionInfo vc) (\<lambda>info. ret (updateAvailable info)))"

definition skipResult :: "versionInfo \<Rightarrow> skipReason \<Rightarrow> versionCheckResult" where
  "skipResult info reason =
     \<lparr> shouldShowPrompt = False, versionInfo = info, skipReason = Some reason \<rparr>"

text \<open>
  The end of the \<^verbatim>\<open>try\<close> block: update the last check time, record the shown version
  if the store supports it, and answer that the prompt is to be shown.
\<close>

definition recordPrompt :: "'w versionChecker \<Rightarrow> versionInfo \<Rightarrow> ('w, versionCheckResult) io" where
  "recordPrompt vc info =
     await (now vc) (\<lambda>t.
     await (invoke (SetLastCheckTime t) (sp_setLastCheckTime (storageProvider vc) t)) (\<lambda>_.
     await (case sp_setLastShownVersion (storageProvider vc) of
              None \<Rightarrow> ret ()
            | Some setShown \<Rightarrow>
                (case latestVersion info of
                   None \<Rightarrow> ret ()
                 | Some l \<Rightarrow>
                     (if l \<noteq> [] then invoke (SetLastShownVersion l) (setShown l)
                      else ret ()))) (\<lambda>_.
     ret \<lparr> shouldShowPrompt = True, versionInfo = info, skipReason = None \<rparr>)))"

text \<open>
  The "already shown" test: it runs only when the store has \<^verbatim>\<open>getLastShownVersion\<close>, and
  a version that was shown before is shown again only when the Data Source has the
  \<^verbatim>\<open>isUpdateMandatory\<close> hook and the hook answers true.
\<close>

definition shownVersionCheck ::
  "'w versionChecker \<Rightarrow> versionInfo \<Rightarrow> ('w, versionCheckResult) io" where
  "shownVersionCheck vc info =
     (case sp_getLastShownVersion (storageProvider vc) of
        None \<Rightarrow> recordPrompt vc info
      | Some getShown \<Rightarrow>
          await (invoke GetLastShownVersion getShown) (\<lambda>lastShownVersion.
            if lastShownVersion = latestVersion info then
              (case dp_isUpdateMandatory (dataProvider vc) of
                 Some mandatory \<Rightarrow>
                   await (invoke (IsUpdateMandatory (currentVersion info) (latestVersion info))
                            (mandatory (currentVersion info) (latestVersion info)))
                     (\<lambda>isMandatory.
                        if \<not> isMandatory then ret (skipResult info Remind_later)
                        else recordPrompt vc info)
               | None \<Rightarrow> ret (skipResult info Remind_later))
            else recordPrompt vc info))"

text \<open>The body of the \<^verbatim>\<open>try\<close> block of \<^verbatim>\<open>shouldShowUpdatePrompt\<close>.\<close>

definition tryBlock :: "'w versionChecker \<Rightarrow> ('w, versionCheckResult) io" where
  "tryBlock vc =
     await (vc_getVersionInfo vc) (\<lambda>info.
       if \<not> updateAvailable info then ret (skipResult info No_update)
       else
         await (invoke GetRemindLaterTime (sp_getRemindLaterTime (storageProvider vc)))
           (\<lambda>remindLaterTime.
         await (case truthyTime remindLaterTime of
                  None \<Rightarrow> ret False
                | Some remind \<Rightarrow> await (now vc) (\<lambda>t. ret (t < remind))) (\<lambda>inRemindPeriod.
         if inRemindPeriod then ret (skipResult info Remind_later)
         else
           await (invoke GetLastCheckTime (sp_getLastCheckTime (storageProvider vc)))
             (\<lambda>lastCheckTime.
           await (case truthyTime lastCheckTime of
                    None \<Rightarrow> ret False
                  | Some lastCheck \<Rightarrow>
                      await (now vc) (\<lambda>t.
                        ret (t - lastCheck < minCheckInterval (options vc)))) (\<lambda>tooSoon.
           if tooSoon then ret (skipResult info Too_soon)
           else shownVersionCheck vc info)))))"

definition vc_shouldShowUpdatePrompt :: "'w versionChecker \<Rightarrow> ('w, versionCheckResult) io" where
  "vc_shouldShowUpdatePrompt vc =
     await (vc_getPlatform vc) (\<lambda>p.
       if p = Web \<and> skipWebPlatform (options vc) then
         await (vc_getVersionInfo vc) (\<lambda>info. ret (skipResult info Web_platform))
       else
         tryCatch (tryBlock vc) (\<lambda>e.
           await (consoleError e) (\<lambda>_.
           await (vc_getVersionInfo vc) (\<lambda>info. ret (skipResult info Error)))))"

definition vc_setRemindMeLater :: "'w versionChecker \<Rightarrow> ('w, unit) io" where
  "vc_setRemindMeLater vc =
     await (now vc) (\<lambda>t.
       (let remindTime = t + remindLaterDuration (options vc)
        in await (invoke (SetRemindLaterTime remindTime)
                    (sp_setRemindLaterTime (storageProvider vc) remindTime)) (\<lambda>_.
             (case sp_incrementDismissCount (storageProvider vc) of
                None \<Rightarrow> ret ()
              | Some increment \<Rightarrow> invoke IncrementDismissCount increment))))"

section \<open>The in-memory Preference Store (class \<^verbatim>\<open>InMemoryStorageProvider\<close>)\<close>

text \<open>
  The class keeps a private \<^verbatim>\<open>Map<string, any>\<close>; its methods store numbers and strings
  only. A getter returns \<^verbatim>\<open>this.storage.get(key) || null\<close>: a missing key and a falsy
  value both read as \<^verbatim>\<open>null\<close>. No method of the class throws.
\<close>

datatype jsval = JNum int | JStr string

fun numOrNull :: "jsval option \<Rightarrow> jsnum option" where
  "numOrNull (Some (JNum n)) = (if n = 0 then None else Some (Num n))"
| "numOrNull _ = None"

fun strOrNull :: "jsval option \<Rightarrow> string option" where
  "strOrNull (Some (JStr v)) = (if v = [] then None else Some v)"
| "strOrNull _ = None"

fun numOrZero :: "jsval option \<Rightarrow> int" where
  "numOrZero (Some (JNum n)) = n"
| "numOrZero _ = 0"

definition inMemoryStorageProvider :: "(string \<rightharpoonup> jsval) storageProvider" where
  "inMemoryStorageProvider =
     \<lparr> sp_getLastCheckTime = (\<lambda>storage. (Inr (numOrNull (storage ''lastCheckTime'')), storage)),
       sp_setLastCheckTime =
         (\<lambda>timestamp storage. (Inr (), storage(''lastCheckTime'' \<mapsto> JNum timestamp))),
       sp_getRemindLaterTime =
         (\<lambda>storage. (Inr (numOrNull (storage ''remindLaterTime'')), storage)),
       sp_setRemindLaterTime =
         (\<lambda>timestamp storage. (Inr (), storage(''remindLaterTime'' \<mapsto> JNum timestamp))),
       sp_clearRemindLaterTime = (\<lambda>storage. (Inr (), storage(''remindLaterTime'' := None))),
       sp_incrementDismissCount =
         Some (\<lambda>storage.
           (Inr (), storage(''dismissCount'' \<mapsto> JNum (numOrZero (storage ''dismissCount'') + 1)))),
       sp_getLastShownVersion =
         Some (\<lambda>storage. (Inr (strOrNull (storage ''lastShownVersion'')), storage)),
       sp_setLastShownVersion =
         Some (\<lambda>version storage. (Inr (), storage(''lastShownVersion'' \<mapsto> JStr version))) \<rparr>"

text \<open>
  Test fixtures: a Data Source that serves fixed values, one whose
  \<^verbatim>\<open>getLatestVersion\<close> rejects on every call, the in-memory store on a medium that is
  full (recording the shown version rejects), and a checker assembled from a Data Source,
  a store, a fixed platform and a clock that reads a fixed time.
\<close>

definition staticDataProvider ::
  "string \<Rightarrow> string option \<Rightarrow> appStoreConfig \<Rightarrow> 'w dataProvider" where
  "staticDataProvider current latest config =
     \<lparr> dp_getCurrentVersion = (\<lambda>w. (Inr current, w)),
       dp_getLatestVersion = (\<lambda>p w. (Inr latest, w)),
       dp_getAppStoreConfig = (\<lambda>w. (Inr config, w)),
       dp_isUpdateMandatory = None \<rparr>"

definition rejectingDataProvider :: "string \<Rightarrow> appStoreConfig \<Rightarrow> 'w dataProvider" where
  "rejectingDataProvider current config =
     \<lparr> dp_getCurrentVersion = (\<lambda>w. (Inr current, w)),
       dp_getLatestVersion = (\<lambda>p w. (Inl (Exn ''network error''), w)),
       dp_getAppStoreConfig = (\<lambda>w. (Inr config, w)),
       dp_isUpdateMandatory = None \<rparr>"


definition emptyStorage :: "string \<rightharpoonup> jsval" where
  "emptyStorage = Map.empty"

definition emptyConfig :: appStoreConfig where
  "emptyConfig =
     \<lparr> iosAppStoreId = None, androidPackageName = None,
       iosStoreUrl = None, androidStoreUrl = None \<rparr>"

definition checkerAt ::
  "'w dataProvider \<Rightarrow> 'w storageProvider \<Rightarrow> 'w options \<Rightarrow> int \<Rightarrow> 'w versionChecker" where
  "checkerAt dp sp opts t =
     \<lparr> dataProvider = dp, storageProvider = sp, options = opts, dateNow = (\<lambda>w. (t, w)) \<rparr>"

definition defaultOptions :: "platform \<Rightarrow> 'w options" where
  "defaultOptions p =
     \<lparr> minCheckInterval = 3600000, remindLaterDuration = 86400000,
       skipWebPlatform = True, opt_getPlatform = (\<lambda>w. (Inr p, w)) \<rparr>"

definition testChecker ::
  "'w dataProvider \<Rightarrow> 'w storageProvider \<Rightarrow> platform \<Rightarrow> int \<Rightarrow> 'w versionChecker" where
  "testChecker dp sp p t = checkerAt dp sp (defaultOptions p) t"

section \<open>Notions used to state the properties\<close>

text \<open>
  The comparison that \<^verbatim>\<open>compareVersions\<close> computes, by recursion on the two lists of
  parsed segments: a list that ends early continues with zeros.
\<close>

fun cmpParts :: "jsnum list \<Rightarrow> jsnum list \<Rightarrow> int" where
  "cmpParts [] [] = 0"
| "cmpParts (x # xs) [] =
     (if js_lt x (Num 0) then - 1 else if js_gt x (Num 0) then 1 else cmpParts xs [])"
| "cmpParts [] (y # ys) =
     (if js_lt (Num 0) y then - 1 else if js_gt (Num 0) y then 1 else cmpParts [] ys)"
| "cmpParts (x # xs) (y # ys) =
     (if js_lt x y then - 1 else if js_gt x y then 1 else cmpParts xs ys)"

text \<open>A valid dotted version string: every segment is a non-empty string of digits.\<close>

definition validVersion :: "string \<Rightarrow> bool" where
  "validVersion v = list_all (\<lambda>seg. seg \<noteq> [] \<and> list_all isDigit seg) (split_dot v)"

text \<open>A string all of whose segments parse to a number.\<close>

definition parsable :: "string \<Rightarrow> bool" where
  "parsable v = list_all (\<lambda>seg. parseInt10 seg \<noteq> NaN) (split_dot v)"

text \<open>\<^verbatim>\<open>segments.join('.')\<close>, the inverse of splitting.\<close>

fun join_dot :: "string list \<Rightarrow> string" where
  "join_dot [] = []"
| "join_dot [seg] = seg"
| "join_dot (seg # segs) = seg @ CHR ''.'' # join_dot segs"

text \<open>The version string with \<open>n\<close> segments \<^verbatim>\<open>.0\<close> appended.\<close>

fun appendZeroSegments :: "nat \<Rightarrow> string \<Rightarrow> string" where
  "appendZeroSegments 0 v = v"
| "appendZeroSegments (Suc n) v = appendZeroSegments n v @ ''.0''"

text \<open>
  The reading "unparsable segments are treated as zero": the same string with every
  unparsable segment replaced by \<^verbatim>\<open>0\<close>.
\<close>

definition zeroUnparsable :: "string \<Rightarrow> string" where
  "zeroUnparsable v =
     join_dot (map (\<lambda>seg. if parseInt10 seg = NaN then ''0'' else seg) (split_dot v))"

text \<open>
  What the loop does instead: a position where either side is unparsable decides nothing.
  \<open>neutralise v w\<close> is \<open>v\<close> with \<^verbatim>\<open>0\<close> in place of every segment that is unparsable or
  stands opposite an unparsable segment of \<open>w\<close>.
\<close>

fun neutraliseSegs :: "string list \<Rightarrow> string list \<Rightarrow> string list" where
  "neutraliseSegs [] _ = []"
| "neutraliseSegs (x # xs) [] =
     (if parseInt10 x = NaN then ''0'' else x) # neutraliseSegs xs []"
| "neutraliseSegs (x # xs) (y # ys) =
     (if parseInt10 x = NaN \<or> parseInt10 y = NaN then ''0'' else x) # neutraliseSegs xs ys"

definition neutralise :: "string \<Rightarrow> string \<Rightarrow> string" where
  "neutralise v w = join_dot (neutraliseSegs (split_dot v) (split_dot w))"

text \<open>
  The store-URL resolver as the specification words it, where an override or an
  identifier counts as soon as it is present.
\<close>

definition storeUrlAsClaimed :: "platform \<Rightarrow> appStoreConfig \<Rightarrow> string option" where
  "storeUrlAsClaimed p config =
     (case p of
        Ios \<Rightarrow>
          (case iosStoreUrl config of
             Some url \<Rightarrow> Some url
           | None \<Rightarrow>
               (case iosAppStoreId config of
                  Some ident \<Rightarrow> Some (''https://apps.apple.com/app/id'' @ ident)
                | None \<Rightarrow> None))
      | Android \<Rightarrow>
          (case androidStoreUrl config of
             Some url \<Rightarrow> Some url
           | None \<Rightarrow>
               (case androidPackageName config of
                  Some name \<Rightarrow> Some (''https://play.google.com/store/apps/details?id='' @ name)
                | None \<Rightarrow> None))
      | Web \<Rightarrow> None)"

text \<open>A configuration with every empty string taken as an absent field.\<close>

fun nonEmpty :: "string option \<Rightarrow> string option" where
  "nonEmpty None = None"
| "nonEmpty (Some v) = (if v = [] then None else Some v)"

definition dropEmptyFields :: "appStoreConfig \<Rightarrow> appStoreConfig" where
  "dropEmptyFields config =
     \<lparr> iosAppStoreId = nonEmpty (iosAppStoreId config),
       androidPackageName = nonEmpty (androidPackageName config),
       iosStoreUrl = nonEmpty (iosStoreUrl config),
       androidStoreUrl = nonEmpty (androidStoreUrl config) \<rparr>"

text \<open>
  Partial correctness of an engine operation: from a state that satisfies \<open>P\<close>, the
  outcome and the final state satisfy \<open>Q\<close>.
\<close>

definition holds ::
  "('w \<times> call list \<Rightarrow> bool) \<Rightarrow> ('w, 'a) io \<Rightarrow> (exn + 'a \<Rightarrow> 'w \<times> call list \<Rightarrow> bool) \<Rightarrow> bool"
  where
  "holds P m Q = (\<forall>s. P s \<longrightarrow> (case m s of (r, s') \<Rightarrow> Q r s'))"

text \<open>
  An observation \<open>obs\<close> of the outside world is untouched by an operation when the
  operation never changes it. \<open>readsPreserve obs vc\<close>: nothing the engine calls, other
  than the writing operations of the Preference Store, changes \<open>obs\<close>.
\<close>

definition untouched :: "('w \<Rightarrow> 'v) \<Rightarrow> ('w \<Rightarrow> 'r \<times> 'w) \<Rightarrow> bool" where
  "untouched obs f = (\<forall>w. obs (snd (f w)) = obs w)"

definition readsPreserve :: "('w \<Rightarrow> 'v) \<Rightarrow> 'w versionChecker \<Rightarrow> bool" where
  "readsPreserve obs vc =
     (untouched obs (opt_getPlatform (options vc)) \<and>
      untouched obs (dateNow vc) \<and>
      untouched obs (dp_getCurrentVersion (dataProvider vc)) \<and>
      (\<forall>p. untouched obs (dp_getLatestVersion (dataProvider vc) p)) \<and>
      untouched obs (dp_getAppStoreConfig (dataProvider vc)) \<and>
      (\<forall>mandatory a b. dp_isUpdateMandatory (dataProvider vc) = Some mandatory \<longrightarrow>
         untouched obs (mandatory a b)) \<and>
      untouched obs (sp_getRemindLaterTime (storageProvider vc)) \<and>
      untouched obs (sp_getLastCheckTime (storageProvider vc)) \<and>
      (\<forall>getShown. sp_getLastShownVersion (storageProvider vc) = Some getShown \<longrightarrow>
         untouched obs getShown))"

text \<open>
  The skip reasons of an evaluation that stopped at one of the four throttles.
\<close>

fun throttled :: "skipReason option \<Rightarrow> bool" where
  "throttled (Some Web_platform) = True"
| "throttled (Some No_update) = True"
| "throttled (Some Remind_later) = True"
| "throttled (Some Too_soon) = True"
| "throttled _ = False"

text \<open>
  \<open>quietSince obs vc w calls s\<close>: since the state \<open>(w, calls)\<close> the engine has made no
  writing call, and \<open>obs\<close> has its value of then if the reads preserve it.
\<close>

definition quietSince ::
  "('w \<Rightarrow> 'v) \<Rightarrow> 'w versionChecker \<Rightarrow> 'w \<Rightarrow> call list \<Rightarrow> 'w \<times> call list \<Rightarrow> bool" where
  "quietSince obs vc w calls s =
     ((\<exists>made. snd s = calls @ made \<and> filter isWrite made = []) \<and>
      (readsPreserve obs vc \<longrightarrow> obs (fst s) = obs w))"

text \<open>
  The three shapes of a result: the prompt (no skip reason), one of the four throttles, and
  the \<open>error\<close> result. \<open>settled obs vc w calls r s\<close>: the outcome \<open>r\<close> is an exception or
  a result of one of these shapes, and with a throttle nothing has been written.
\<close>

definition promptShape :: "versionCheckResult \<Rightarrow> bool" where
  "promptShape res = (shouldShowPrompt res \<and> skipReason res = None)"

definition errorShape :: "versionCheckResult \<Rightarrow> bool" where
  "errorShape res = (\<not> shouldShowPrompt res \<and> skipReason res = Some Error)"

definition settled ::
  "('w \<Rightarrow> 'v) \<Rightarrow> 'w versionChecker \<Rightarrow> 'w \<Rightarrow> call list \<Rightarrow>
   exn + versionCheckResult \<Rightarrow> 'w \<times> call list \<Rightarrow> bool" where
  "settled obs vc w calls r s =
     (case r of
        Inl e \<Rightarrow> True
      | Inr res \<Rightarrow>
          (if throttled (skipReason res)
           then \<not> shouldShowPrompt res \<and> quietSince obs vc w calls s
           else promptShape res \<or> errorShape res))"

text \<open>
  The sort comparator reads every segment through \<^verbatim>\<open>|| 0\<close>, which turns \<open>NaN\<close> into
  \<open>0\<close>: it compares the lists of segments below.
\<close>

fun deNaN :: "jsnum \<Rightarrow> jsnum" where
  "deNaN NaN = Num 0"
| "deNaN (Num k) = Num k"

definition sortKey :: "string \<Rightarrow> jsnum list" where
  "sortKey v = map deNaN (versionParts v)"

section \<open>Properties of the version comparator\<close>

subsection \<open>The loops as list recursion\<close>

lemma padZeros_eq: "padZeros n ps = ps @ replicate (n - length ps) (Num 0)"
proof (induction n ps rule: padZeros.induct)
  case (1 n ps)
  show ?case
  proof (cases "length ps < n")
    case True
    then have "n - length ps = Suc (n - length (ps @ [Num 0]))" by simp
    with 1 True show ?thesis
      by (subst padZeros.simps) (simp add: replicate_app_Cons_same)
  next
    case False
    then show ?thesis by (subst padZeros.simps) simp
  qed
qed

lemma compareLoop_drop:
  "length p1 = n \<Longrightarrow> length p2 = n \<Longrightarrow>
   compareLoop p1 p2 n i = cmpParts (drop i p1) (drop i p2)"
proof (induction p1 p2 n i rule: compareLoop.induct)
  case (1 p1 p2 n i)
  show ?case
  proof (cases "i < n")
    case True
    with 1 have d1: "drop i p1 = p1 ! i # drop (i + 1) p1"
      and d2: "drop i p2 = p2 ! i # drop (i + 1) p2"
      by (simp_all add: Cons_nth_drop_Suc)
    show ?thesis
      using 1 True by (subst compareLoop.simps) (simp add: d1 d2)
  next
    case False
    with 1 show ?thesis by (subst compareLoop.simps) simp
  qed
qed

lemma cmpParts_zeros_nil_left: "cmpParts (replicate k (Num 0)) b = cmpParts [] b"
proof (induction b arbitrary: k)
  case Nil
  show ?case by (induction k) auto
next
  case (Cons y ys)
  show ?case
  proof (cases k)
    case 0
    then show ?thesis by simp
  next
    case (Suc m)
    with Cons [of m] show ?thesis by simp
  qed
qed

lemma cmpParts_zeros_nil_right: "cmpParts a (replicate k (Num 0)) = cmpParts a []"
proof (induction a arbitrary: k)
  case Nil
  show ?case by (induction k) auto
next
  case (Cons x xs)
  show ?case
  proof (cases k)
    case 0
    then show ?thesis by simp
  next
    case (Suc m)
    with Cons [of m] show ?thesis by simp
  qed
qed

lemma cmpParts_pad_left: "cmpParts (a @ replicate k (Num 0)) b = cmpParts a b"
  by (induction a b rule: cmpParts.induct) (simp_all add: cmpParts_zeros_nil_left)

lemma cmpParts_pad_right: "cmpParts a (b @ replicate k (Num 0)) = cmpParts a b"
  by (induction a b rule: cmpParts.induct) (simp_all add: cmpParts_zeros_nil_right)

lemma compareVersions_cmpParts:
  "compareVersions v1 v2 = cmpParts (versionParts v1) (versionParts v2)"
  by (simp add: compareVersions_def Let_def compareLoop_drop padZeros_eq
      cmpParts_pad_left cmpParts_pad_right)

lemma cmpParts_range: "cmpParts a b \<in> {- 1, 0, 1}"
  by (induction a b rule: cmpParts.induct) auto

lemma cmpParts_antisym: "cmpParts a b = - cmpParts b a"
  by (induction a b rule: cmpParts.induct) (auto elim: js_lt.elims js_gt.elims)

lemma cmpParts_refl: "cmpParts a a = 0"
  by (induction a) (auto elim: js_lt.elims js_gt.elims)

subsection \<open>Splitting and joining\<close>

lemma split_dot_nonempty: "split_dot v \<noteq> []"
  by (induction v) (auto split: list.splits)

lemma split_dot_append:
  "split_dot (a @ CHR ''.'' # s) = split_dot a @ split_dot s"
proof (induction a)
  case Nil
  show ?case by simp
next
  case (Cons c cs)
  obtain w ws where w: "split_dot cs = w # ws"
    using split_dot_nonempty [of cs] by (cases "split_dot cs") auto
  with Cons show ?case by simp
qed

lemma parseInt10_zero: "parseInt10 ''0'' = Num 0"
  by code_simp

lemma versionParts_appendZeroSegments:
  "versionParts (appendZeroSegments n v) = versionParts v @ replicate n (Num 0)"
proof (induction n)
  case 0
  show ?case by simp
next
  case (Suc n)
  have "versionParts (appendZeroSegments n v @ ''.0'')
        = versionParts (appendZeroSegments n v) @ [Num 0]"
    using split_dot_append [of "appendZeroSegments n v" "''0''"]
    by (simp add: versionParts_def parseInt10_zero)
  with Suc show ?case
    by (simp add: replicate_append_same)
qed

subsection \<open>Antisymmetry and reflexivity\<close>

text \<open>
  Claim C6. For valid dotted version strings \<open>a\<close> and \<open>b\<close> (dot-separated non-negative
  integers), \<open>compareVersions a b\<close> is the negation of \<open>compareVersions b a\<close>, and
  \<open>compareVersions a a\<close> is \<open>0\<close>. (The proof does not use validity: the loop skips a
  position with an unparsable segment whichever side it stands on.)
\<close>

theorem compareVersions_antisymmetric_reflexive:
  assumes "validVersion a" and "validVersion b"
  shows "compareVersions a b = - compareVersions b a \<and> compareVersions a a = 0"
  using cmpParts_antisym [of "versionParts a" "versionParts b"] cmpParts_refl [of "versionParts a"]
  by (simp add: compareVersions_cmpParts)

theorem compareVersions_antisymmetric_reflexive_witness:
  "validVersion ''1.0.49'' \<and> validVersion ''1.1.0'' \<and>
   compareVersions ''1.0.49'' ''1.1.0'' = - compareVersions ''1.1.0'' ''1.0.49'' \<and>
   compareVersions ''1.0.49'' ''1.0.49'' = 0"
proof -
  have a: "validVersion ''1.0.49''" by code_simp
  have b: "validVersion ''1.1.0''" by code_simp
  from compareVersions_antisymmetric_reflexive [OF a b] a b show ?thesis by simp
qed

subsection \<open>Trailing zero segments\<close>

text \<open>
  Claim C7. Missing trailing segments count as zero: \<open>compareVersions\<close> of \<^verbatim>\<open>1.0\<close> and
  \<^verbatim>\<open>1.0.0\<close> is \<open>0\<close>, that of \<^verbatim>\<open>1.0.0\<close> and \<^verbatim>\<open>1.0.0.1\<close> is negative, and appending
  any number of \<^verbatim>\<open>.0\<close> segments to a version string changes its comparison with no
  other string, on either side.
\<close>

theorem compareVersions_trailing_zeros:
  "compareVersions ''1.0'' ''1.0.0'' = 0 \<and>
   compareVersions ''1.0.0'' ''1.0.0.1'' < 0 \<and>
   compareVersions (appendZeroSegments n a) b = compareVersions a b \<and>
   compareVersions b (appendZeroSegments n a) = compareVersions b a"
proof -
  have "compareVersions ''1.0'' ''1.0.0'' = 0" by code_simp
  moreover have "compareVersions ''1.0.0'' ''1.0.0.1'' < 0" by code_simp
  moreover have "compareVersions (appendZeroSegments n a) b = compareVersions a b"
    by (simp add: compareVersions_cmpParts versionParts_appendZeroSegments cmpParts_pad_left)
  moreover have "compareVersions b (appendZeroSegments n a) = compareVersions b a"
    by (simp add: compareVersions_cmpParts versionParts_appendZeroSegments cmpParts_pad_right)
  ultimately show ?thesis by blast
qed

section \<open>Malformed version strings\<close>

lemma split_dot_no_dot: "CHR ''.'' \<notin> set s \<Longrightarrow> split_dot s = [s]"
  by (induction s) auto

lemma split_dot_segments: "seg \<in> set (split_dot v) \<Longrightarrow> CHR ''.'' \<notin> set seg"
proof (induction v arbitrary: seg)
  case Nil
  then show ?case by simp
next
  case (Cons c cs)
  obtain w ws where w: "split_dot cs = w # ws"
    using split_dot_nonempty [of cs] by (cases "split_dot cs") auto
  show ?case
  proof (cases "c = CHR ''.''")
    case True
    with Cons show ?thesis by auto
  next
    case False
    with Cons.prems w have "seg = c # w \<or> seg \<in> set ws" by auto
    then show ?thesis
    proof
      assume "seg = c # w"
      moreover have "CHR ''.'' \<notin> set w" using Cons.IH [of w] w by simp
      ultimately show ?thesis using False by auto
    next
      assume "seg \<in> set ws"
      then show ?thesis using Cons.IH [of seg] w by simp
    qed
  qed
qed

lemma split_join:
  "segs \<noteq> [] \<Longrightarrow> \<forall>seg \<in> set segs. CHR ''.'' \<notin> set seg \<Longrightarrow>
   split_dot (join_dot segs) = segs"
proof (induction segs rule: join_dot.induct)
  case 1
  then show ?case by simp
next
  case (2 seg)
  then show ?case by (simp add: split_dot_no_dot)
next
  case (3 seg s2 segs)
  then show ?case by (simp add: split_dot_append split_dot_no_dot)
qed

lemma neutraliseSegs_length: "length (neutraliseSegs xs ys) = length xs"
  by (induction xs ys rule: neutraliseSegs.induct) auto

lemma neutraliseSegs_no_dot:
  "\<forall>seg \<in> set xs. CHR ''.'' \<notin> set seg \<Longrightarrow>
   \<forall>seg \<in> set (neutraliseSegs xs ys). CHR ''.'' \<notin> set seg"
  by (induction xs ys rule: neutraliseSegs.induct) auto

lemma versionParts_neutralise:
  "versionParts (neutralise v w) = map parseInt10 (neutraliseSegs (split_dot v) (split_dot w))"
proof -
  have "neutraliseSegs (split_dot v) (split_dot w) \<noteq> []"
    using neutraliseSegs_length [of "split_dot v" "split_dot w"] split_dot_nonempty [of v]
    by (metis length_0_conv)
  moreover have "\<forall>seg \<in> set (neutraliseSegs (split_dot v) (split_dot w)). CHR ''.'' \<notin> set seg"
    by (rule neutraliseSegs_no_dot) (simp add: split_dot_segments)
  ultimately show ?thesis
    by (simp add: versionParts_def neutralise_def split_join)
qed

lemma cmpParts_nil_neutralised:
  "cmpParts (map parseInt10 (neutraliseSegs xs [])) [] = cmpParts (map parseInt10 xs) []"
  by (induction xs) (auto simp: parseInt10_zero)

lemma cmpParts_neutralised_nil:
  "cmpParts [] (map parseInt10 (neutraliseSegs ys [])) = cmpParts [] (map parseInt10 ys)"
  by (induction ys) (auto simp: parseInt10_zero)

lemma cmpParts_neutraliseSegs:
  "cmpParts (map parseInt10 (neutraliseSegs xs ys)) (map parseInt10 (neutraliseSegs ys xs))
   = cmpParts (map parseInt10 xs) (map parseInt10 ys)"
proof (induction xs ys rule: list_induct2')
  case 1
  show ?case by simp
next
  case (2 x xs)
  show ?case using cmpParts_nil_neutralised [of "x # xs"] by simp
next
  case (3 y ys)
  show ?case using cmpParts_neutralised_nil [of "y # ys"] by simp
next
  case (4 x xs y ys)
  then show ?case
    by (cases "parseInt10 x"; cases "parseInt10 y") (simp_all add: parseInt10_zero)
qed

text \<open>
  Claim C4 as stated: the result is the one for the strings with every unparsable segment
  replaced by \<^verbatim>\<open>0\<close>. It fails for \<^verbatim>\<open>a\<close> against \<^verbatim>\<open>1\<close>: the loop finds \<open>NaN\<close> neither
  less nor greater than \<open>1\<close> and answers \<open>0\<close>, while \<^verbatim>\<open>0\<close> against \<^verbatim>\<open>1\<close> gives \<open>-1\<close>.
\<close>

theorem compareVersions_unparsable_counterexample:
  "compareVersions ''a'' ''1'' = 0 \<and>
   zeroUnparsable ''a'' = ''0'' \<and> zeroUnparsable ''1'' = ''1'' \<and>
   compareVersions (zeroUnparsable ''a'') (zeroUnparsable ''1'') = - 1"
proof -
  have "compareVersions ''a'' ''1'' = 0" by code_simp
  moreover have "zeroUnparsable ''a'' = ''0''" by code_simp
  moreover have "zeroUnparsable ''1'' = ''1''" by code_simp
  moreover have "compareVersions ''0'' ''1'' = - 1" by code_simp
  ultimately show ?thesis by simp
qed

text \<open>
  Claim C4, amended. For every pair of strings \<open>compareVersions\<close> returns \<open>-1\<close>, \<open>0\<close> or
  \<open>1\<close> (it is a total function: nothing raises). An unparsable segment is not read as
  zero: the position it stands at decides nothing, whatever stands opposite. The result
  equals that for the two strings with \<^verbatim>\<open>0\<close> in place of every unparsable segment and of
  every segment opposite an unparsable one.
\<close>

theorem compareVersions_malformed:
  "compareVersions v w \<in> {- 1, 0, 1} \<and>
   compareVersions v w = compareVersions (neutralise v w) (neutralise w v)"
  using cmpParts_range [of "versionParts v" "versionParts w"]
  by (simp add: compareVersions_cmpParts versionParts_neutralise cmpParts_neutraliseSegs)
    (simp add: versionParts_def)

section \<open>Sorting and the latest of a list\<close>

lemma sortCompareLoop_flip:
  "sortCompareLoop d a b n i = sortCompareLoop (\<not> d) b a n i"
proof (induction d a b n i rule: sortCompareLoop.induct)
  case (1 d a b n i)
  show ?case
  proof (cases "i < n")
    case True
    show ?thesis
    proof (cases "orZero (nthOpt a i) = orZero (nthOpt b i)")
      case same: True
      have "sortCompareLoop d a b n (i + 1) = sortCompareLoop (\<not> d) b a n (i + 1)"
        using 1 True same by simp
      with True same show ?thesis
        by (subst sortCompareLoop.simps, subst (2) sortCompareLoop.simps) (simp add: Let_def)
    next
      case False
      with True show ?thesis
        by (subst sortCompareLoop.simps, subst (2) sortCompareLoop.simps)
          (auto simp: Let_def)
    qed
  next
    case False
    then show ?thesis
      by (subst sortCompareLoop.simps, subst (2) sortCompareLoop.simps) simp
  qed
qed

lemma sortCompare_swap: "sortCompare True a b = sortCompare False b a"
  using sortCompareLoop_flip [of True]
  by (simp add: sortCompare_def Let_def max.commute)

lemma sortCompareLoop_sgn:
  "length a \<le> n \<Longrightarrow> length b \<le> n \<Longrightarrow>
   sgn (sortCompareLoop False a b n i) = cmpParts (map deNaN (drop i a)) (map deNaN (drop i b))"
proof (induction "False" a b n i rule: sortCompareLoop.induct)
  case (1 a b n i)
  show ?case
  proof (cases "i < n")
    case False
    with 1 show ?thesis
      by (subst sortCompareLoop.simps) simp
  next
    case True
    have da: "drop i a = (if i < length a then a ! i # drop (i + 1) a else [])"
      by (simp add: Cons_nth_drop_Suc)
    have db: "drop i b = (if i < length b then b ! i # drop (i + 1) b else [])"
      by (simp add: Cons_nth_drop_Suc)
    have later_a: "\<not> i < length a \<Longrightarrow> drop (i + 1) a = []" by simp
    have later_b: "\<not> i < length b \<Longrightarrow> drop (i + 1) b = []" by simp
    show ?thesis
    proof (cases "orZero (nthOpt a i) = orZero (nthOpt b i)")
      case same: True
      have ih: "sgn (sortCompareLoop False a b n (i + 1))
          = cmpParts (map deNaN (drop (i + 1) a)) (map deNaN (drop (i + 1) b))"
        using 1 True same by simp
      have "sortCompareLoop False a b n i = sortCompareLoop False a b n (i + 1)"
        using True same by (subst sortCompareLoop.simps) (simp add: Let_def)
      moreover have "cmpParts (map deNaN (drop i a)) (map deNaN (drop i b))
          = cmpParts (map deNaN (drop (i + 1) a)) (map deNaN (drop (i + 1) b))"
        using same later_a later_b
        unfolding nthOpt_def da db
        by (cases "a ! i"; cases "b ! i") (auto split: if_splits)
      ultimately show ?thesis using ih by simp
    next
      case diff: False
      have "sortCompareLoop False a b n i = orZero (nthOpt a i) - orZero (nthOpt b i)"
        using True diff by (subst sortCompareLoop.simps) (simp add: Let_def)
      moreover have "cmpParts (map deNaN (drop i a)) (map deNaN (drop i b))
          = sgn (orZero (nthOpt a i) - orZero (nthOpt b i))"
        using diff
        unfolding nthOpt_def da db
        by (cases "a ! i"; cases "b ! i") (auto split: if_splits)
      ultimately show ?thesis by simp
    qed
  qed
qed

lemma sortCompare_sgn: "sgn (sortCompare False a b) = cmpParts (sortKey a) (sortKey b)"
  using sortCompareLoop_sgn [of "versionParts a" "max (length (versionParts a)) (length (versionParts b))"
      "versionParts b" 0]
  by (simp add: sortCompare_def Let_def sortKey_def)

lemma sortKey_parsable: "parsable v \<Longrightarrow> sortKey v = versionParts v"
proof -
  have "list_all (\<lambda>x. x \<noteq> NaN) xs \<Longrightarrow> map deNaN xs = xs" for xs
  proof (induction xs)
    case Nil
    show ?case by simp
  next
    case (Cons x xs)
    then show ?case by (cases x) auto
  qed
  moreover assume "parsable v"
  then have "list_all (\<lambda>x. x \<noteq> NaN) (versionParts v)"
    by (simp add: parsable_def versionParts_def list_all_iff)
  ultimately show ?thesis by (simp add: sortKey_def)
qed

lemma cmpParts_trans_same_length:
  "length a = length b \<Longrightarrow> length b = length c \<Longrightarrow>
   cmpParts (map deNaN a) (map deNaN b) \<le> 0 \<Longrightarrow>
   cmpParts (map deNaN b) (map deNaN c) \<le> 0 \<Longrightarrow>
   cmpParts (map deNaN a) (map deNaN c) \<le> 0"
proof (induction a b c rule: list_induct3)
  case Nil
  show ?case by simp
next
  case (Cons x xs y ys z zs)
  obtain i j k where n: "deNaN x = Num i" "deNaN y = Num j" "deNaN z = Num k"
    by (metis deNaN.elims)
  from Cons.prems Cons.IH show ?case
    by (simp add: n split: if_splits)
qed

lemma cmpParts_key_trans:
  assumes "cmpParts (map deNaN a) (map deNaN b) \<le> 0"
    and "cmpParts (map deNaN b) (map deNaN c) \<le> 0"
  shows "cmpParts (map deNaN a) (map deNaN c) \<le> 0"
proof -
  define n where "n = max (length a) (max (length b) (length c))"
  define a' where "a' = a @ replicate (n - length a) (Num 0)"
  define b' where "b' = b @ replicate (n - length b) (Num 0)"
  define c' where "c' = c @ replicate (n - length c) (Num 0)"
  have len: "length a' = length b'" "length b' = length c'"
    by (simp_all add: a'_def b'_def c'_def n_def)
  have eq: "cmpParts (map deNaN u @ replicate p (Num 0)) (map deNaN v @ replicate q (Num 0))
            = cmpParts (map deNaN u) (map deNaN v)" for u v p q
    by (simp add: cmpParts_pad_left cmpParts_pad_right)
  have "cmpParts (map deNaN a') (map deNaN b') \<le> 0"
    using assms(1) by (simp add: a'_def b'_def eq)
  moreover have "cmpParts (map deNaN b') (map deNaN c') \<le> 0"
    using assms(2) by (simp add: b'_def c'_def eq)
  ultimately have "cmpParts (map deNaN a') (map deNaN c') \<le> 0"
    by (rule cmpParts_trans_same_length [OF len])
  then show ?thesis by (simp add: a'_def c'_def eq)
qed

lemma sortCompare_le_iff: "sortCompare d a b \<le> 0 \<longleftrightarrow>
    (if d then cmpParts (sortKey b) (sortKey a) \<le> 0 else cmpParts (sortKey a) (sortKey b) \<le> 0)"
proof -
  have "x \<le> 0 \<longleftrightarrow> sgn x \<le> 0" for x :: int by (simp add: sgn_if)
  then show ?thesis
    using sortCompare_sgn [of a b] sortCompare_sgn [of b a] sortCompare_swap [of a b]
    by (cases d) metis+
qed

lemma sortCompare_trans:
  "sortCompare d a b \<le> 0 \<Longrightarrow> sortCompare d b c \<le> 0 \<Longrightarrow> sortCompare d a c \<le> 0"
  unfolding sortCompare_le_iff sortKey_def
  by (cases d) (auto intro: cmpParts_key_trans)

lemma sortCompare_total: "\<not> sortCompare d a b \<le> 0 \<Longrightarrow> sortCompare d b a \<le> 0"
  unfolding sortCompare_le_iff
  using cmpParts_antisym [of "sortKey a" "sortKey b"]
  by (cases d) auto

lemma insertBy_set: "set (insertBy cmp x ys) = insert x (set ys)"
  by (induction ys) auto

lemma arraySort_set: "set (arraySort cmp xs) = set xs"
  by (induction xs) (simp_all add: arraySort_def insertBy_set)

lemma arraySort_Cons: "arraySort cmp (x # xs) = insertBy cmp x (arraySort cmp xs)"
  by (simp add: arraySort_def)

lemma arraySort_head:
  assumes trans: "\<And>a b c. cmp a b \<le> 0 \<Longrightarrow> cmp b c \<le> 0 \<Longrightarrow> cmp a c \<le> 0"
    and total: "\<And>a b. \<not> cmp a b \<le> 0 \<Longrightarrow> cmp b a \<le> 0"
    and "xs \<noteq> []"
  shows "\<exists>h rest. arraySort cmp xs = h # rest \<and> h \<in> set xs \<and> (\<forall>y \<in> set xs. cmp h y \<le> 0)"
  using assms(3)
proof (induction xs)
  case Nil
  then show ?case by simp
next
  case (Cons x xs)
  have refl: "cmp x x \<le> 0" using total [of x x] by blast
  show ?case
  proof (cases "xs = []")
    case True
    then show ?thesis using refl by (simp add: arraySort_def)
  next
    case False
    with Cons.IH obtain h rest where h: "arraySort cmp xs = h # rest" "h \<in> set xs"
      "\<forall>y \<in> set xs. cmp h y \<le> 0" by blast
    show ?thesis
    proof (cases "cmp x h \<le> 0")
      case True
      then have "\<forall>y \<in> set xs. cmp x y \<le> 0" using h(3) trans by blast
      with True refl h(1) show ?thesis by (simp add: arraySort_Cons)
    next
      case False
      then have "cmp h x \<le> 0" by (rule total)
      with False h show ?thesis by (simp add: arraySort_Cons)
    qed
  qed
qed

text \<open>
  Claim C5 as stated: the comparator of \<open>sortVersions\<close> agrees in sign with
  \<open>compareVersions\<close> for every pair of strings, and \<open>getLatestVersion\<close> returns an
  element that is maximal under \<open>compareVersions\<close>. Both fail on unparsable segments,
  which the comparator reads as zero (\<^verbatim>\<open>aParts[i] || 0\<close>) and \<open>compareVersions\<close>
  passes over: ascending, \<^verbatim>\<open>a\<close> sorts before \<^verbatim>\<open>1\<close> although \<open>compareVersions\<close> finds
  them equal; and of \<^verbatim>\<open>2.1\<close> and \<^verbatim>\<open>a.2\<close> the latest is \<^verbatim>\<open>2.1\<close>, which
  \<open>compareVersions\<close> places strictly below \<^verbatim>\<open>a.2\<close>.
\<close>

theorem getLatestVersion_unparsable_counterexample:
  "sortCompare False ''a'' ''1'' = - 1 \<and> compareVersions ''a'' ''1'' = 0 \<and>
   getLatestVersion [''2.1'', ''a.2''] = Some ''2.1'' \<and>
   compareVersions ''2.1'' ''a.2'' = - 1"
proof -
  have "sortCompare False ''a'' ''1'' = - 1" by code_simp
  moreover have "compareVersions ''a'' ''1'' = 0" by code_simp
  moreover have "getLatestVersion [''2.1'', ''a.2''] = Some ''2.1''" by code_simp
  moreover have "compareVersions ''2.1'' ''a.2'' = - 1" by code_simp
  ultimately show ?thesis by blast
qed

text \<open>
  Claim C5, amended. On version strings all of whose segments parse to a number, the
  comparator that \<open>sortVersions\<close> hands to the sort agrees in sign with
  \<open>compareVersions\<close> in ascending order, and with \<open>compareVersions\<close> of the swapped
  arguments in descending order (the default); and for a non-empty list of such strings
  \<open>getLatestVersion\<close> returns an element of the list that no element of the list exceeds
  under \<open>compareVersions\<close>. For the empty list it returns \<^verbatim>\<open>null\<close>. The functions are
  pure: each result is a function of the arguments alone.
\<close>

theorem sort_helpers_compose_compareVersions:
  assumes "parsable a" and "parsable b"
    and "versions \<noteq> []" and "list_all parsable versions"
  shows "sgn (sortCompare False a b) = compareVersions a b \<and>
         sgn (sortCompare True a b) = compareVersions b a \<and>
         getLatestVersion [] = None \<and>
         (\<exists>v. getLatestVersion versions = Some v \<and> v \<in> set versions \<and>
              list_all (\<lambda>u. 0 \<le> compareVersions v u) versions)"
proof -
  have asc: "sgn (sortCompare False a b) = compareVersions a b"
    using assms(1,2) by (simp add: sortCompare_sgn sortKey_parsable compareVersions_cmpParts)
  have desc: "sgn (sortCompare True a b) = compareVersions b a"
    using assms(1,2)
    by (simp add: sortCompare_swap sortCompare_sgn sortKey_parsable compareVersions_cmpParts)
  have empty: "getLatestVersion [] = None"
    by (simp add: getLatestVersion_def)
  have "\<exists>h rest. arraySort (sortCompare True) versions = h # rest \<and> h \<in> set versions \<and>
          (\<forall>y \<in> set versions. sortCompare True h y \<le> 0)"
  proof (rule arraySort_head)
    show "sortCompare True x z \<le> 0"
      if "sortCompare True x y \<le> 0" and "sortCompare True y z \<le> 0" for x y z
      using that by (rule sortCompare_trans)
    show "sortCompare True y x \<le> 0" if "\<not> sortCompare True x y \<le> 0" for x y
      using that by (rule sortCompare_total)
    show "versions \<noteq> []" by (rule assms(3))
  qed
  then obtain h rest where h: "arraySort (sortCompare True) versions = h # rest"
    "h \<in> set versions" "\<forall>y \<in> set versions. sortCompare True h y \<le> 0"
    by blast
  have "0 \<le> compareVersions h u" if "u \<in> set versions" for u
  proof -
    have ph: "parsable h" and pu: "parsable u"
      using assms(4) h(2) that by (simp_all add: list_all_iff)
    have "cmpParts (sortKey u) (sortKey h) \<le> 0"
      using h(3) that by (simp add: sortCompare_le_iff)
    then have "compareVersions u h \<le> 0"
      using ph pu by (simp add: sortKey_parsable compareVersions_cmpParts)
    then show ?thesis
      using cmpParts_antisym [of "versionParts h" "versionParts u"]
      by (simp add: compareVersions_cmpParts)
  qed
  then have "list_all (\<lambda>u. 0 \<le> compareVersions h u) versions"
    by (simp add: list_all_iff)
  moreover have "getLatestVersion versions = Some h"
    using assms(3) h(1) by (simp add: getLatestVersion_def sortVersions_def)
  ultimately show ?thesis
    using asc desc empty h(2) by blast
qed

theorem sort_helpers_compose_compareVersions_witness:
  "parsable ''1.2'' \<and> parsable ''1.10'' \<and>
   list_all parsable [''1.0'', ''1.2'', ''1.10''] \<and>
   sgn (sortCompare False ''1.2'' ''1.10'') = compareVersions ''1.2'' ''1.10'' \<and>
   sgn (sortCompare True ''1.2'' ''1.10'') = compareVersions ''1.10'' ''1.2'' \<and>
   getLatestVersion [''1.0'', ''1.2'', ''1.10''] = Some ''1.10'' \<and>
   list_all (\<lambda>u. 0 \<le> compareVersions ''1.10'' u) [''1.0'', ''1.2'', ''1.10'']"
proof -
  have a: "parsable ''1.2''" by code_simp
  have b: "parsable ''1.10''" by code_simp
  have ne: "[''1.0'', ''1.2'', ''1.10''] \<noteq> []" by simp
  have all: "list_all parsable [''1.0'', ''1.2'', ''1.10'']" by code_simp
  have latest: "getLatestVersion [''1.0'', ''1.2'', ''1.10''] = Some ''1.10''" by code_simp
  from sort_helpers_compose_compareVersions [OF a b ne all] a b all latest
  show ?thesis by simp
qed

section \<open>Properties of the store-URL resolver\<close>

text \<open>
  Claim C8 as stated: an override or identifier that is present decides the result. It
  fails on an override that is present and empty, which the truthiness test
  \<^verbatim>\<open>if (customUrl)\<close> passes over.
\<close>

theorem getStoreUrl_empty_override_counterexample:
  "getStoreUrl Ios
     \<lparr> iosAppStoreId = Some ''123456789'', androidPackageName = None,
       iosStoreUrl = Some '''', androidStoreUrl = None \<rparr>
   = Some ''https://apps.apple.com/app/id123456789'' \<and>
   storeUrlAsClaimed Ios
     \<lparr> iosAppStoreId = Some ''123456789'', androidPackageName = None,
       iosStoreUrl = Some '''', androidStoreUrl = None \<rparr>
   = Some ''''"
  by (simp add: getStoreUrl_def getIosStoreUrl_def storeUrlAsClaimed_def)

text \<open>
  Claim C8, amended. With an empty string counting as an absent field, the resolver is
  the one claimed: for \<open>Ios\<close> the non-empty override, else the URL built from the
  non-empty App Store identifier, else nothing; for \<open>Android\<close> the non-empty override, else
  the URL built from the non-empty package name, else nothing; for \<open>Web\<close> nothing.
\<close>

theorem getStoreUrl_resolves:
  "getStoreUrl p config = storeUrlAsClaimed p (dropEmptyFields config) \<and>
   getStoreUrl Web config = None"
proof -
  have "getStoreUrl p config = storeUrlAsClaimed p (dropEmptyFields config)"
  proof (cases p)
    case Ios
    then show ?thesis
      by (cases "iosStoreUrl config"; cases "iosAppStoreId config")
        (simp_all add: getStoreUrl_def getIosStoreUrl_def storeUrlAsClaimed_def
          dropEmptyFields_def)
  next
    case Android
    then show ?thesis
      by (cases "androidStoreUrl config"; cases "androidPackageName config")
        (simp_all add: getStoreUrl_def getAndroidStoreUrl_def storeUrlAsClaimed_def
          dropEmptyFields_def)
  next
    case Web
    then show ?thesis
      by (simp add: getStoreUrl_def storeUrlAsClaimed_def)
  qed
  then show ?thesis by (simp add: getStoreUrl_def)
qed

section \<open>Properties of the decision engine\<close>

subsection \<open>Version information\<close>

text \<open>
  Claim C2 as stated: \<open>updateAvailable\<close> is true exactly when the latest version is not
  \<^verbatim>\<open>null\<close> and \<open>compareVersions\<close> of the current and the latest version is negative. It
  fails for the empty latest version, which the test \<^verbatim>\<open>latestVersion ? ... : false\<close>
  takes as absent: against the current version \<^verbatim>\<open>1.-1\<close> the comparison is negative and
  \<open>updateAvailable\<close> is false.
\<close>

theorem getVersionInfo_empty_latest_counterexample:
  "fst (vc_getVersionInfo
          (testChecker (staticDataProvider ''1.-1'' (Some '''') emptyConfig)
             inMemoryStorageProvider Ios 1000)
          (emptyStorage, []))
   = Inr \<lparr> currentVersion = ''1.-1'', latestVersion = Some '''', updateAvailable = False,
           storeUrl = None, platform = Ios \<rparr> \<and>
   compareVersions ''1.-1'' '''' < 0"
proof -
  have "compareVersions ''1.-1'' '''' < 0" by code_simp
  then show ?thesis
    by (simp add: vc_getVersionInfo_def vc_getPlatform_def await_def invoke_def ret_def
        testChecker_def checkerAt_def defaultOptions_def staticDataProvider_def emptyConfig_def getStoreUrl_def
        getIosStoreUrl_def)
qed

text \<open>
  Claim C2, amended. Whenever \<open>getVersionInfo\<close> returns, \<open>updateAvailable\<close> is true
  exactly when the latest version is not \<^verbatim>\<open>null\<close>, is not the empty string, and
  \<open>compareVersions\<close> of the current and the latest version is negative.
\<close>

theorem getVersionInfo_updateAvailable:
  assumes "vc_getVersionInfo vc s = (Inr info, s')"
  shows "updateAvailable info =
           (\<exists>l. latestVersion info = Some l \<and> l \<noteq> [] \<and>
                compareVersions (currentVersion info) l < 0)"
  using assms
  by (cases s)
    (auto simp: vc_getVersionInfo_def vc_getPlatform_def await_def invoke_def ret_def
      isUpdateAvailable_def split: prod.splits sum.splits option.splits if_splits)

theorem getVersionInfo_updateAvailable_witness:
  "vc_getVersionInfo
     (testChecker (staticDataProvider ''1.0.49'' (Some ''1.1.0'') emptyConfig)
        inMemoryStorageProvider Ios 1000)
     (emptyStorage, [])
   = (Inr \<lparr> currentVersion = ''1.0.49'', latestVersion = Some ''1.1.0'',
             updateAvailable = True, storeUrl = None, platform = Ios \<rparr>,
      (emptyStorage, [GetPlatform, GetCurrentVersion, GetLatestVersion Ios, GetAppStoreConfig])) \<and>
   compareVersions ''1.0.49'' ''1.1.0'' < 0"
proof -
  have c: "compareVersions ''1.0.49'' ''1.1.0'' < 0" by code_simp
  have run: "vc_getVersionInfo
     (testChecker (staticDataProvider ''1.0.49'' (Some ''1.1.0'') emptyConfig)
        inMemoryStorageProvider Ios 1000)
     (emptyStorage, [])
   = (Inr \<lparr> currentVersion = ''1.0.49'', latestVersion = Some ''1.1.0'',
             updateAvailable = True, storeUrl = None, platform = Ios \<rparr>,
      (emptyStorage, [GetPlatform, GetCurrentVersion, GetLatestVersion Ios, GetAppStoreConfig]))"
    using c
    by (simp add: vc_getVersionInfo_def vc_getPlatform_def await_def invoke_def ret_def
        testChecker_def checkerAt_def defaultOptions_def staticDataProvider_def emptyConfig_def getStoreUrl_def
        getIosStoreUrl_def isUpdateAvailable_def)
  from getVersionInfo_updateAvailable [OF run] run show ?thesis by simp
qed

subsection \<open>The web shortcut of \<^verbatim>\<open>isUpdateAvailable\<close>\<close>

text \<open>
  Claim C9. Once the platform is resolved: if it is \<open>Web\<close> and \<open>skipWebPlatform\<close> is
  set, \<open>isUpdateAvailable\<close> returns false, and the only call made is the platform
  detection, so neither \<open>getCurrentVersion\<close> nor \<open>getLatestVersion\<close> is invoked;
  otherwise the call is \<open>getVersionInfo\<close> and the answer is its \<open>updateAvailable\<close>
  field (or the exception the fetch throws).
\<close>

theorem isUpdateAvailable_web_shortcut:
  assumes "opt_getPlatform (options vc) w = (Inr p, w1)"
  shows "vc_isUpdateAvailable vc (w, calls) =
           (if p = Web \<and> skipWebPlatform (options vc)
            then (Inr False, (w1, calls @ [GetPlatform]))
            else (case vc_getVersionInfo vc (w1, calls @ [GetPlatform]) of
                    (Inl e, s) \<Rightarrow> (Inl e, s)
                  | (Inr info, s) \<Rightarrow> (Inr (updateAvailable info), s))) \<and>
         (if p = Web \<and> skipWebPlatform (options vc)
          then filter isVersionFetch (snd (snd (vc_isUpdateAvailable vc (w, calls))))
               = filter isVersionFetch calls
          else True)"
  using assms
  by (simp add: vc_isUpdateAvailable_def vc_getPlatform_def await_def invoke_def ret_def
      split: prod.splits sum.splits)

theorem isUpdateAvailable_web_shortcut_witness:
  "opt_getPlatform
     (options (testChecker (staticDataProvider ''1.0.49'' (Some ''1.1.0'') emptyConfig)
                 inMemoryStorageProvider Web 1000)) emptyStorage
   = (Inr Web, emptyStorage) \<and>
   vc_isUpdateAvailable
     (testChecker (staticDataProvider ''1.0.49'' (Some ''1.1.0'') emptyConfig)
        inMemoryStorageProvider Web 1000) (emptyStorage, [])
   = (Inr False, (emptyStorage, [GetPlatform]))"
proof -
  have p: "opt_getPlatform
     (options (testChecker (staticDataProvider ''1.0.49'' (Some ''1.1.0'') emptyConfig)
                 inMemoryStorageProvider Web 1000)) emptyStorage
   = (Inr Web, emptyStorage)"
    by (simp add: testChecker_def checkerAt_def defaultOptions_def)
  have skip: "skipWebPlatform
     (options (testChecker (staticDataProvider ''1.0.49'' (Some ''1.1.0'') emptyConfig)
                 inMemoryStorageProvider Web 1000))"
    by (simp add: testChecker_def checkerAt_def defaultOptions_def)
  from isUpdateAvailable_web_shortcut [OF p, of "[]"] p skip show ?thesis by simp
qed

subsection \<open>Exceptions in \<^verbatim>\<open>shouldShowUpdatePrompt\<close>\<close>

text \<open>
  Claim C1. The claim: \<open>shouldShowUpdatePrompt\<close> never raises, and with a Data Source
  whose \<open>getLatestVersion\<close> rejects it resolves to the \<open>error\<close> result (Scenario E).
  The code does not do that. Evaluated with a Data Source whose \<open>getLatestVersion\<close>
  rejects on every call, on a platform that is not skipped: the \<^verbatim>\<open>try\<close> block throws at
  \<open>getLatestVersion\<close>, the \<^verbatim>\<open>catch\<close> block logs the error and calls \<open>getVersionInfo\<close>
  again, outside any \<^verbatim>\<open>try\<close>; that second fetch rejects too, and the call rejects with
  the provider's exception instead of resolving to the \<open>error\<close> result.
\<close>

theorem shouldShowUpdatePrompt_rejects_scenario_E:
  "vc_shouldShowUpdatePrompt
     (testChecker (rejectingDataProvider ''1.0.0'' emptyConfig) inMemoryStorageProvider Ios 1000)
     (emptyStorage, [])
   = (Inl (Exn ''network error''),
      (emptyStorage,
       [GetPlatform, GetPlatform, GetCurrentVersion, GetLatestVersion Ios,
        ConsoleError (Exn ''network error''),
        GetPlatform, GetCurrentVersion, GetLatestVersion Ios]))"
  by (simp add: vc_shouldShowUpdatePrompt_def tryCatch_def tryBlock_def vc_getVersionInfo_def
      vc_getPlatform_def await_def invoke_def ret_def consoleError_def
      testChecker_def checkerAt_def defaultOptions_def rejectingDataProvider_def)

subsection \<open>Scenario B: a fresh store, then an immediate second call\<close>






subsection \<open>Skipping evaluations write nothing\<close>









lemma quiet_consoleError:
  "holds (quietSince obs vc w calls) (consoleError e) (\<lambda>r. quietSince obs vc w calls)"
proof -
  have "quietSince obs vc w calls (w0, cs @ [ConsoleError e])"
    if "quietSince obs vc w calls (w0, cs)" for w0 cs
  proof -
    from that obtain made where m: "cs = calls @ made" "filter isWrite made = []"
      by (auto simp: quietSince_def)
    have "cs @ [ConsoleError e] = calls @ (made @ [ConsoleError e])"
      "filter isWrite (made @ [ConsoleError e]) = []"
      using m by simp_all
    then show ?thesis
      using that unfolding quietSince_def by (metis fst_conv snd_conv)
  qed
  then show ?thesis
    by (auto simp: holds_def consoleError_def split: prod.splits)
qed





lemma settled_Inl [simp]: "settled obs vc w calls (Inl e) s"
  by (simp add: settled_def)

lemma settled_skip [simp]:
  "quietSince obs vc w calls s \<Longrightarrow> settled obs vc w calls (Inr (skipResult info r)) s"
  by (cases r) (simp_all add: settled_def skipResult_def errorShape_def)

lemma settled_error [simp]:
  "settled obs vc w calls (Inr (skipResult info Error)) s"
  by (simp add: settled_def skipResult_def errorShape_def)









end
